theory Spec2Isabelle
  imports
    Main
    "HOL-Library.FSet"
    "HOL-Library.List_Lexorder"
    "HOL-Library.Char_ord"
begin

section \<open>Text\<close>

text \<open>
  A Python \<open>str\<close> is a sequence of code points. The model keeps the code points below
  256: a \<^typ>\<open>char\<close> is read as the code point \<open>of_char c\<close>, and a string is a
  \<^typ>\<open>string\<close>. On this range \<open>str.isspace\<close> (which \<open>str.strip\<close> and the
  regular expression class \<open>\s\<close> both follow) holds for the code points 9 to 13, 28 to 32,
  133 and 160, and \<open>str.lower\<close> adds 32 to the code points 65 to 90 and 192 to 222
  other than 215.
\<close>

definition isspace :: "char \<Rightarrow> bool" where
  "isspace c = (of_char c \<in> {9, 10, 11, 12, 13, 28, 29, 30, 31, 32, 133, 160 :: nat})"

definition lower_char :: "char \<Rightarrow> char" where
  "lower_char c =
     (let n = of_char c :: nat
      in if (65 \<le> n \<and> n \<le> 90) \<or> (192 \<le> n \<and> n \<le> 222 \<and> n \<noteq> 215)
         then char_of (n + 32) else c)"

text \<open>\<open>s.lower()\<close>\<close>

definition lower :: "string \<Rightarrow> string" where
  "lower s = map lower_char s"

text \<open>\<open>s.strip()\<close>\<close>

definition strip :: "string \<Rightarrow> string" where
  "strip s = rev (dropWhile isspace (rev (dropWhile isspace s)))"

text \<open>\<open>re.sub(r"\s+", " ", s)\<close>: every maximal run of whitespace becomes one blank.\<close>

function sub_ws :: "string \<Rightarrow> string" where
  "sub_ws [] = []"
| "sub_ws (c # cs) =
     (if isspace c then CHR '' '' # sub_ws (dropWhile isspace cs) else c # sub_ws cs)"
  by pat_completeness auto
termination
  by (relation "measure length") (auto simp: length_dropWhile_le less_Suc_eq_le)

text \<open>
  \<open>norm(s)\<close> is \<open>re.sub(r"\s+", " ", (s or "").strip()).lower()\<close>. The argument is
  optional: \<open>None\<close> stands for Python's \<open>None\<close>, which \<open>s or ""\<close> replaces by the
  empty string.
\<close>

definition norm :: "string option \<Rightarrow> string" where
  "norm s = lower (sub_ws (strip (case s of None \<Rightarrow> [] | Some x \<Rightarrow> x)))"

text \<open>A text that neither starts nor ends with whitespace.\<close>

definition stripped :: "string \<Rightarrow> bool" where
  "stripped t = (t = [] \<or> (\<not> isspace (hd t) \<and> \<not> isspace (last t)))"

text \<open>\<open>k in t\<close> for strings: \<open>k\<close> occurs in \<open>t\<close> as a contiguous piece.\<close>

primrec py_in :: "string \<Rightarrow> string \<Rightarrow> bool" where
  "py_in k [] = (k = [])"
| "py_in k (c # cs) = (take (length k) (c # cs) = k \<or> py_in k cs)"


section \<open>Values read from JSON\<close>

text \<open>
  The program applies three operations to the values it finds inside parsed JSON:
  \<open>str(v)\<close>, the truth test of \<open>v or d\<close>, and \<open>.strip()\<close>, which only a string has.
  \<open>null\<close>, booleans, integers and strings are modelled as they are; \<open>POther t s\<close> is any
  other value (a float, a nested array or object), given by its truth value \<open>t\<close> and by
  the text \<open>s\<close> that \<open>str\<close> returns for it.
\<close>

datatype pyval = PNone | PBool bool | PInt int | PStr string | POther bool string

fun truthy :: "pyval \<Rightarrow> bool" where
  "truthy PNone = False"
| "truthy (PBool b) = b"
| "truthy (PInt i) = (i \<noteq> 0)"
| "truthy (PStr s) = (s \<noteq> [])"
| "truthy (POther t s) = t"

fun digits :: "nat \<Rightarrow> string" where
  "digits n =
     (if n < 10 then [char_of (48 + n)] else digits (n div 10) @ [char_of (48 + n mod 10)])"

declare digits.simps [simp del]

definition str_int :: "int \<Rightarrow> string" where
  "str_int i = (if i < 0 then CHR ''-'' # digits (nat (- i)) else digits (nat i))"

text \<open>\<open>str(v)\<close>\<close>

fun py_str :: "pyval \<Rightarrow> string" where
  "py_str PNone = ''None''"
| "py_str (PBool b) = (if b then ''True'' else ''False'')"
| "py_str (PInt i) = str_int i"
| "py_str (PStr s) = s"
| "py_str (POther t s) = s"

text \<open>What \<open>json.load\<close> or \<open>r.json()\<close> returns: a list, or a value that is not a list.\<close>

datatype 'a document = Not_array | Array "'a list"

text \<open>The exceptions the program can meet.\<close>

datatype error =
    AttributeError
  | FileNotFoundError
  | JSONDecodeError
  | ConnectionError
  | HTTPError


section \<open>Analyst filtering\<close>

definition INCLUDE_TITLE_KEYWORDS :: "string list" where
  "INCLUDE_TITLE_KEYWORDS =
     [''data analyst'',
      ''business analyst'',
      ''product analyst'',
      ''analytics'',
      ''bi analyst'',
      ''business intelligence'',
      ''reporting analyst'',
      ''insights analyst'',
      ''data science'',
      ''data scientist'',
      ''science'']"

definition EXCLUDE_TITLE_KEYWORDS :: "string list" where
  "EXCLUDE_TITLE_KEYWORDS =
     [''software engineer'',
      ''software development'',
      ''developer'',
      ''full stack'',
      ''frontend'',
      ''back end'',
      ''backend'',
      ''devops'',
      ''site reliability'',
      ''sre'',
      ''platform engineer'',
      ''ml engineer'',
      ''machine learning engineer'',
      ''data engineer'',
      ''cloud engineer'',
      ''security engineer'',
      ''product manager'',
      ''program manager'',
      ''director'',
      ''sr '',
      ''senior '',
      ''principal'',
      ''staff'',
      ''lead'',
      ''manager'',
      ''intern'']"

definition is_analyst_role :: "string \<Rightarrow> bool" where
  "is_analyst_role title =
     (let t = norm (Some title)
      in if \<not> list_ex (\<lambda>k. py_in k t) INCLUDE_TITLE_KEYWORDS then False
         else if list_ex (\<lambda>k. py_in k t) EXCLUDE_TITLE_KEYWORDS then False
         else True)"


section \<open>The state file\<close>

text \<open>
  The resource named by \<open>STATE_FILE\<close>: absent, present with contents that
  \<open>json.load\<close> rejects, or present with contents that parse. \<open>json.dump\<close> followed by
  \<open>json.load\<close> gives back a list of strings unchanged, so a written file is represented
  by the value that was written; writing always succeeds.
\<close>

datatype resource = Absent | Invalid | Json "pyval document"

text \<open>\<open>os.path.exists(STATE_FILE)\<close>\<close>

definition path_exists :: "resource \<Rightarrow> bool" where
  "path_exists f = (f \<noteq> Absent)"

text \<open>\<open>open(STATE_FILE)\<close> followed by \<open>json.load(f)\<close>\<close>

fun json_load :: "resource \<Rightarrow> error + pyval document" where
  "json_load Absent = Inl FileNotFoundError"
| "json_load Invalid = Inl JSONDecodeError"
| "json_load (Json d) = Inr d"

definition load_seen :: "resource \<Rightarrow> error + string fset" where
  "load_seen f =
     (if \<not> path_exists f then Inr {||}
      else
        (case json_load f of
           Inr (Array data) \<Rightarrow> Inr (fset_of_list (map py_str data))
         | Inr Not_array \<Rightarrow> Inr {||}
         | Inl e \<Rightarrow> Inr {||}))"

text \<open>
  \<open>save_seen(seen)\<close> opens the file for writing, which discards what it held, and
  dumps \<open>sorted(seen)\<close>; strings compare by code point, lexicographically. The function
  takes the resource as it was and returns it as it is afterwards.
\<close>

definition save_seen :: "string fset \<Rightarrow> resource \<Rightarrow> resource" where
  "save_seen seen f = Json (Array (map PStr (sorted_list_of_fset seen)))"


section \<open>The feed\<close>

text \<open>
  An element of the fetched list is a JSON object, kept as the list of its members, or
  some other JSON value.
\<close>

datatype item = Dict "(string \<times> pyval) list" | NotDict

text \<open>
  What the request of \<open>fetch_jobs\<close> meets: \<open>requests.get\<close> raises, \<open>raise_for_status\<close>
  raises, \<open>r.json()\<close> raises, or the body parses.
\<close>

datatype response = ConnectionFailed | ErrorStatus | BadBody | Body "item document"

fun fetch_jobs :: "response \<Rightarrow> error + item list" where
  "fetch_jobs ConnectionFailed = Inl ConnectionError"
| "fetch_jobs ErrorStatus = Inl HTTPError"
| "fetch_jobs BadBody = Inl JSONDecodeError"
| "fetch_jobs (Body Not_array) = Inr []"
| "fetch_jobs (Body (Array data)) = Inr data"

text \<open>\<open>job.get(k, d)\<close> and \<open>job.get(k)\<close>\<close>

definition get_default :: "(string \<times> pyval) list \<Rightarrow> string \<Rightarrow> pyval \<Rightarrow> pyval" where
  "get_default job k d = (case map_of job k of None \<Rightarrow> d | Some v \<Rightarrow> v)"

definition get :: "(string \<times> pyval) list \<Rightarrow> string \<Rightarrow> pyval" where
  "get job k = get_default job k PNone"

fun stable_job_id :: "item \<Rightarrow> error + string" where
  "stable_job_id NotDict = Inl AttributeError"
| "stable_job_id (Dict job) =
     (let employer = norm (Some (py_str (get_default job ''employer_name'' (PStr ''''))));
          title = norm (Some (py_str (get_default job ''job_title'' (PStr ''''))));
          city = norm (Some (py_str (get_default job ''job_city'' (PStr ''''))));
          state = norm (Some (py_str (get_default job ''job_state'' (PStr ''''))));
          link = norm (Some (py_str (get_default job ''job_apply_link'' (PStr ''''))));
          posted = norm (Some (py_str (get_default job ''job_posted_at'' (PStr ''''))))
      in Inr (employer @ ''||'' @ title @ ''||'' @ city @ ''||'' @ state @ ''||''
              @ link @ ''||'' @ posted))"


section \<open>Delivery\<close>

text \<open>\<open>(v or d).strip()\<close>: only a string has \<open>strip\<close>.\<close>

definition or_strip :: "pyval \<Rightarrow> string \<Rightarrow> error + string" where
  "or_strip v d =
     (if truthy v then (case v of PStr s \<Rightarrow> Inr (strip s) | _ \<Rightarrow> Inl AttributeError)
      else Inr (strip d))"

definition format_location :: "(string \<times> pyval) list \<Rightarrow> error + string" where
  "format_location job =
     (case or_strip (get job ''job_city'') '''' of
        Inl e \<Rightarrow> Inl e
      | Inr city \<Rightarrow>
          (case or_strip (get job ''job_state'') '''' of
             Inl e \<Rightarrow> Inl e
           | Inr state \<Rightarrow>
               Inr (if city \<noteq> [] \<and> state \<noteq> [] then city @ '', '' @ state
                    else if city \<noteq> [] then city
                    else if state \<noteq> [] then state
                    else ''Unknown'')))"

text \<open>
  The embed that is posted, by the five texts it is built from (its title joins the
  employer and the job title; source, footer and timestamp do not depend on the job).
\<close>

record embed =
  embed_employer :: string
  embed_title :: string
  embed_location :: string
  embed_age :: string
  embed_url :: string

text \<open>
  \<open>post_embed(job)\<close>. The webhook is a parameter: it maps the embed to \<open>None\<close> when
  the request succeeds and to the exception that \<open>requests.post\<close> or
  \<open>raise_for_status\<close> raises otherwise.
\<close>

fun post_embed :: "(embed \<Rightarrow> error option) \<Rightarrow> item \<Rightarrow> error + unit" where
  "post_embed hook NotDict = Inl AttributeError"
| "post_embed hook (Dict job) =
     (case or_strip (get job ''employer_name'') ''Unknown Company'' of
        Inl e \<Rightarrow> Inl e
      | Inr employer \<Rightarrow>
     (case or_strip (get job ''job_title'') ''Analyst Role'' of
        Inl e \<Rightarrow> Inl e
      | Inr title \<Rightarrow>
     (case format_location job of
        Inl e \<Rightarrow> Inl e
      | Inr loc \<Rightarrow>
     (case or_strip (get job ''job_posted_at'') ''N/A'' of
        Inl e \<Rightarrow> Inl e
      | Inr age \<Rightarrow>
     (case or_strip (get job ''job_apply_link'') '''' of
        Inl e \<Rightarrow> Inl e
      | Inr link \<Rightarrow>
          (let url = (if link \<noteq> [] then link
                      else ''https://github.com/zapplyjobs/New-Grad-Data-Science-Jobs-2026'')
           in case hook \<lparr>embed_employer = employer, embed_title = title,
                          embed_location = loc, embed_age = age, embed_url = url\<rparr> of
                Some e \<Rightarrow> Inl e
              | None \<Rightarrow> Inr ()))))))"


section \<open>The run\<close>

text \<open>\<open>xs[:n]\<close>: a negative \<open>n\<close> counts from the end.\<close>

definition slice_to :: "int \<Rightarrow> 'a list \<Rightarrow> 'a list" where
  "slice_to n xs = (if 0 \<le> n then take (nat n) xs else take (length xs - nat (- n)) xs)"

text \<open>
  The first loop of \<open>main\<close>: every job is paired with its identity key. The set
  \<open>seen\<close> is not consulted.
\<close>

fun new_jobs_of :: "item list \<Rightarrow> error + (string \<times> item) list" where
  "new_jobs_of [] = Inr []"
| "new_jobs_of (j # js) =
     (case stable_job_id j of
        Inl e \<Rightarrow> Inl e
      | Inr jid \<Rightarrow>
          (case new_jobs_of js of
             Inl e \<Rightarrow> Inl e
           | Inr rest \<Rightarrow> Inr ((jid, j) # rest)))"

text \<open>
  The second loop of \<open>main\<close>, on the variables \<open>seen\<close> and \<open>posted\<close>; \<open>calls\<close> lists
  the jobs that \<open>post_embed\<close> has been called on. The webhook's answer may change from
  one request to the next: \<open>hook n\<close> is its behaviour on the request made after \<open>n\<close>
  earlier ones.
\<close>

record progress =
  seen :: "string fset"
  posted :: nat
  calls :: "item list"

fun post_each ::
  "(nat \<Rightarrow> embed \<Rightarrow> error option) \<Rightarrow> (string \<times> item) list \<Rightarrow> progress
     \<Rightarrow> error option \<times> progress" where
  "post_each hook [] p = (None, p)"
| "post_each hook ((jid, job) # rest) p =
     (case post_embed (hook (posted p)) job of
        Inl e \<Rightarrow> (Some e, p\<lparr>calls := calls p @ [job]\<rparr>)
      | Inr u \<Rightarrow>
          post_each hook rest
            (p\<lparr>seen := finsert jid (seen p), posted := posted p + 1,
               calls := calls p @ [job]\<rparr>))"

text \<open>
  What a run leaves behind: the jobs \<open>post_embed\<close> was called on, in order, the state
  file, the exception that ended the run if one did, and the lines printed.
\<close>

record run =
  attempted :: "item list"
  store :: resource
  raised :: "error option"
  printed :: "string list"

text \<open>The exit status of the process: an uncaught exception gives 1.\<close>

definition exit_code :: "run \<Rightarrow> nat" where
  "exit_code r = (case raised r of None \<Rightarrow> 0 | Some e \<Rightarrow> 1)"

text \<open>
  \<open>main()\<close>, with \<open>MAX_POSTS_PER_RUN\<close>, the webhook, the answer to the feed request and
  the state file as parameters.
\<close>

definition main ::
  "int \<Rightarrow> (nat \<Rightarrow> embed \<Rightarrow> error option) \<Rightarrow> response \<Rightarrow> resource \<Rightarrow> run" where
  "main MAX_POSTS_PER_RUN hook feed file =
     (case load_seen file of
        Inl e \<Rightarrow> \<lparr>attempted = [], store = file, raised = Some e, printed = []\<rparr>
      | Inr seen0 \<Rightarrow>
     (case fetch_jobs feed of
        Inl e \<Rightarrow> \<lparr>attempted = [], store = file, raised = Some e, printed = []\<rparr>
      | Inr jobs \<Rightarrow>
     (let analyst_jobs = jobs in
      case new_jobs_of analyst_jobs of
        Inl e \<Rightarrow> \<lparr>attempted = [], store = file, raised = Some e, printed = []\<rparr>
      | Inr new_jobs \<Rightarrow>
          if new_jobs = [] then
            \<lparr>attempted = [], store = file, raised = None,
             printed = [''No new analyst jobs found.'']\<rparr>
          else
            (case post_each hook (slice_to MAX_POSTS_PER_RUN new_jobs)
                    \<lparr>seen = seen0, posted = 0, calls = []\<rparr> of
               (Some e, p) \<Rightarrow>
                 \<lparr>attempted = calls p, store = file, raised = Some e, printed = []\<rparr>
             | (None, p) \<Rightarrow>
                 \<lparr>attempted = calls p, store = save_seen (seen p) file, raised = None,
                  printed = [''Posted '' @ str_int (int (posted p))
                             @ '' new analyst job(s).'']\<rparr>))))"


section \<open>Notions used to state the properties\<close>

text \<open>The structure the state file is expected to hold: a list whose elements are strings.\<close>

definition expected_structure :: "pyval document \<Rightarrow> bool" where
  "expected_structure d =
     (case d of
        Array data \<Rightarrow> list_all (\<lambda>v. case v of PStr s \<Rightarrow> True | _ \<Rightarrow> False) data
      | Not_array \<Rightarrow> False)"

text \<open>
  The words of a text, as \<open>s.split()\<close> gives them (the maximal pieces free of
  whitespace), and \<open>" ".join(ws)\<close>. Two texts that differ only in whitespace and
  letter case are two texts with the same words once the letters are lowered.
\<close>

function words_of :: "string \<Rightarrow> string list" where
  "words_of s =
     (case dropWhile isspace s of
        [] \<Rightarrow> []
      | c # cs \<Rightarrow>
          takeWhile (\<lambda>x. \<not> isspace x) (c # cs)
            # words_of (dropWhile (\<lambda>x. \<not> isspace x) (c # cs)))"
  by pat_completeness auto
termination
proof (relation "measure length")
  show "wf (measure length)" by simp
next
  fix s :: string and c cs
  assume d: "dropWhile isspace s = c # cs"
  then have "\<not> isspace c"
    using hd_dropWhile [of isspace s] by auto
  then have "length (dropWhile (\<lambda>x. \<not> isspace x) (c # cs)) \<le> length cs"
    by (simp add: length_dropWhile_le)
  moreover have "length (c # cs) \<le> length s"
    using d length_dropWhile_le [of isspace s] by simp
  ultimately show "(dropWhile (\<lambda>x. \<not> isspace x) (c # cs), s) \<in> measure length"
    by simp
qed

declare words_of.simps [simp del]

fun join_blank :: "string list \<Rightarrow> string" where
  "join_blank [] = []"
| "join_blank [w] = w"
| "join_blank (w # v # ws) = w @ CHR '' '' # join_blank (v # ws)"

text \<open>A non-empty text free of whitespace.\<close>

definition word :: "string \<Rightarrow> bool" where
  "word w = (w \<noteq> [] \<and> list_all (\<lambda>x. \<not> isspace x) w)"

text \<open>\<open>s.rstrip()\<close>\<close>

definition rstrip :: "string \<Rightarrow> string" where
  "rstrip s = rev (dropWhile isspace (rev s))"

text \<open>The six fields that \<open>stable_job_id\<close> compares, and the text it reads for one.\<close>

definition compared_fields :: "string list" where
  "compared_fields =
     [''employer_name'', ''job_title'', ''job_city'', ''job_state'', ''job_apply_link'',
      ''job_posted_at'']"

definition field_text :: "(string \<times> pyval) list \<Rightarrow> string \<Rightarrow> string" where
  "field_text job k = py_str (get_default job k (PStr ''''))"

text \<open>Listings and webhooks for the scenarios.\<close>

definition listing :: "string \<Rightarrow> string \<Rightarrow> string \<Rightarrow> item" where
  "listing company role link =
     Dict [(''employer_name'', PStr company), (''job_title'', PStr role),
           (''job_city'', PStr ''Austin''), (''job_state'', PStr ''TX''),
           (''job_apply_link'', PStr link), (''job_posted_at'', PStr ''2d'')]"

definition accepting :: "nat \<Rightarrow> embed \<Rightarrow> error option" where
  "accepting n e = None"

definition rejecting_at :: "nat \<Rightarrow> nat \<Rightarrow> embed \<Rightarrow> error option" where
  "rejecting_at k n e = (if n = k then Some HTTPError else None)"

text \<open>
  The three listings of the end-to-end scenario: an analyst role that was delivered
  before, an analyst role that was not, and a title the classifier rejects.
\<close>

definition analyst_seen :: item where
  "analyst_seen = listing ''Acme'' ''Data Analyst'' ''https://a.io/1''"

definition analyst_new :: item where
  "analyst_new = listing ''Bolt'' ''Business Analyst'' ''https://b.io/2''"

definition engineer :: item where
  "engineer = listing ''Core'' ''Software Engineer'' ''https://c.io/3''"


section \<open>Properties of the normalizer\<close>

lemma isspace_lower_char: "isspace (lower_char c) = isspace c"
  by (auto simp add: isspace_def lower_char_def Let_def)

lemma lower_char_space: "isspace c \<Longrightarrow> lower_char c = c"
  by (auto simp add: isspace_def lower_char_def Let_def)

lemma lower_char_blank: "lower_char CHR '' '' = CHR '' ''"
  by (simp add: lower_char_def)

lemma isspace_blank: "isspace CHR '' ''"
  by (simp add: isspace_def)

lemma lower_char_idem: "lower_char (lower_char c) = lower_char c"
  by (auto simp add: lower_char_def Let_def)

lemma lower_idem: "lower (lower s) = lower s"
  by (simp add: lower_def lower_char_idem)

lemma dropWhile_lower: "dropWhile isspace (lower s) = lower (dropWhile isspace s)"
  by (induction s) (simp_all add: lower_def isspace_lower_char)

lemma sub_ws_lower: "sub_ws (lower s) = lower (sub_ws s)"
proof (induction s rule: sub_ws.induct)
  case 1
  show ?case by (simp add: lower_def)
next
  case (2 c cs)
  show ?case
  proof (cases "isspace c")
    case True
    with 2 show ?thesis
      using dropWhile_lower [of cs]
      by (simp add: lower_def isspace_lower_char lower_char_blank)
  next
    case False
    with 2 show ?thesis
      by (simp add: lower_def isspace_lower_char)
  qed
qed

lemma strip_lower: "strip (lower s) = lower (strip s)"
proof -
  have "rev (lower t) = lower (rev t)" for t
    by (simp add: lower_def rev_map)
  then show ?thesis
    by (simp add: strip_def dropWhile_lower)
qed

lemma last_dropWhile_keep:
  "dropWhile P xs \<noteq> [] \<Longrightarrow> last (dropWhile P xs) = last xs"
  by (induction xs) (auto split: if_splits)

lemma dropWhile_head: "dropWhile P xs = [] \<or> \<not> P (hd (dropWhile P xs))"
  using hd_dropWhile [of P xs] by blast

lemma stripped_strip: "stripped (strip s)"
proof -
  define t where "t = dropWhile isspace s"
  define u where "u = dropWhile isspace (rev t)"
  have s: "strip s = rev u"
    by (simp add: strip_def t_def u_def)
  show ?thesis
  proof (cases "u = []")
    case True
    then show ?thesis by (simp add: s stripped_def)
  next
    case False
    then have "\<not> isspace (hd u)"
      using dropWhile_head [of isspace "rev t"] unfolding u_def by blast
    moreover have "last u = last (rev t)"
      using False unfolding u_def by (rule last_dropWhile_keep)
    moreover have "t \<noteq> []"
      using False by (auto simp: u_def)
    then have "\<not> isspace (hd t)"
      using dropWhile_head [of isspace s] unfolding t_def by blast
    ultimately show ?thesis
      using False \<open>t \<noteq> []\<close> by (simp add: s stripped_def hd_rev last_rev)
  qed
qed

lemma strip_stripped: "stripped t \<Longrightarrow> strip t = t"
proof (cases "t = []")
  case True
  then show ?thesis by (simp add: strip_def)
next
  case False
  assume "stripped t"
  with False have h: "\<not> isspace (hd t)" and l: "\<not> isspace (last t)"
    by (simp_all add: stripped_def)
  from h False have "dropWhile isspace t = t"
    by (cases t) simp_all
  moreover from l False have "dropWhile isspace (rev t) = rev t"
    by (cases "rev t") (simp_all add: hd_rev [symmetric])
  ultimately show ?thesis
    by (simp add: strip_def)
qed

lemma sub_ws_last:
  "t \<noteq> [] \<Longrightarrow> \<not> isspace (last t) \<Longrightarrow> sub_ws t \<noteq> [] \<and> last (sub_ws t) = last t"
proof (induction t rule: sub_ws.induct)
  case 1
  then show ?case by simp
next
  case (2 c cs)
  show ?case
  proof (cases "isspace c")
    case True
    with 2(3,4) have cs: "cs \<noteq> []" and l: "\<not> isspace (last cs)"
      by (auto split: if_splits)
    have "dropWhile isspace cs \<noteq> []"
    proof
      assume "dropWhile isspace cs = []"
      then have "\<forall>x \<in> set cs. isspace x"
        by simp
      with cs l show False
        using last_in_set by blast
    qed
    moreover from this have "last (dropWhile isspace cs) = last cs"
      by (rule last_dropWhile_keep)
    ultimately show ?thesis
      using True cs l 2(1) by simp
  next
    case False
    show ?thesis
    proof (cases "cs = []")
      case True
      with False show ?thesis by simp
    next
      case nonempty: False
      with 2(4) have "\<not> isspace (last cs)" by simp
      with False nonempty 2(2) show ?thesis by simp
    qed
  qed
qed

lemma stripped_sub_ws: "stripped t \<Longrightarrow> stripped (sub_ws t)"
proof (cases t)
  case Nil
  then show ?thesis by (simp add: stripped_def)
next
  case (Cons c cs)
  assume "stripped t"
  with Cons have h: "\<not> isspace c" and l: "\<not> isspace (last t)"
    by (simp_all add: stripped_def)
  from l Cons have "last (sub_ws t) = last t"
    using sub_ws_last [of t] by simp
  with h l Cons show ?thesis
    by (simp add: stripped_def)
qed

lemma dropWhile_sub_ws:
  "d = [] \<or> \<not> isspace (hd d) \<Longrightarrow> dropWhile isspace (sub_ws d) = sub_ws d"
  by (cases d) auto

lemma sub_ws_idem: "sub_ws (sub_ws s) = sub_ws s"
proof (induction s rule: sub_ws.induct)
  case 1
  show ?case by simp
next
  case (2 c cs)
  show ?case
  proof (cases "isspace c")
    case True
    have "dropWhile isspace (sub_ws (dropWhile isspace cs)) = sub_ws (dropWhile isspace cs)"
      using dropWhile_head [of isspace cs] by (rule dropWhile_sub_ws)
    with True 2(1) show ?thesis
      by (simp add: isspace_blank)
  next
    case False
    with 2(2) show ?thesis by simp
  qed
qed

lemma norm_idem: "norm (Some (norm s)) = norm s"
proof -
  define x where "x = (case s of None \<Rightarrow> [] | Some x \<Rightarrow> x)"
  have "strip (sub_ws (strip x)) = sub_ws (strip x)"
    by (intro strip_stripped stripped_sub_ws stripped_strip)
  then show ?thesis
    by (simp add: norm_def x_def [symmetric] strip_lower sub_ws_lower lower_idem sub_ws_idem)
qed

text \<open>
  Claim C9. \<open>norm\<close> is a total function with no effect, it is idempotent, it maps
  \<open>None\<close> and the empty string to the empty string, and it maps \<open>"  A   B "\<close> to
  \<open>"a b"\<close>: outer whitespace is trimmed, inner runs of whitespace collapse to one
  blank, letters are lowered.
\<close>

theorem norm_idempotent_total:
  "norm (Some (norm s)) = norm s
   \<and> norm None = []
   \<and> norm (Some []) = []
   \<and> norm (Some ''  A   B '') = ''a b''"
proof -
  have "norm (Some ''  A   B '') = ''a b''"
    by (simp add: norm_def strip_def lower_def isspace_def lower_char_def Let_def
        char_of_eq_iff)
  moreover have "norm None = []" and "norm (Some []) = []"
    by (simp_all add: norm_def strip_def lower_def)
  ultimately show ?thesis
    using norm_idem [of s] by simp
qed

section \<open>Evaluating the scenarios\<close>

lemmas text_eval =
  norm_def strip_def lower_def isspace_def lower_char_def Let_def char_of_eq_iff

lemmas post_eval =
  listing_def format_location_def or_strip_def get_def get_default_def strip_def
  isspace_def accepting_def rejecting_at_def

lemma key_analyst_seen:
  "stable_job_id analyst_seen = Inr ''acme||data analyst||austin||tx||https://a.io/1||2d''"
  by (simp add: analyst_seen_def listing_def get_default_def text_eval)

lemma key_analyst_new:
  "stable_job_id analyst_new
     = Inr ''bolt||business analyst||austin||tx||https://b.io/2||2d''"
  by (simp add: analyst_new_def listing_def get_default_def text_eval)

lemma key_engineer:
  "stable_job_id engineer = Inr ''core||software engineer||austin||tx||https://c.io/3||2d''"
  by (simp add: engineer_def listing_def get_default_def text_eval)

lemma example_roles:
  "is_analyst_role ''Data Analyst''"
  "is_analyst_role ''Business Analyst''"
  "\<not> is_analyst_role ''Software Engineer''"
  "\<not> is_analyst_role ''Senior Data Scientist''"
  by (simp_all add: is_analyst_role_def INCLUDE_TITLE_KEYWORDS_def
      EXCLUDE_TITLE_KEYWORDS_def text_eval)

lemma str_int_digit: "str_int 0 = ''0''" "str_int 1 = ''1''" "str_int 2 = ''2''"
  "str_int 7 = ''7''"
  by (simp_all add: str_int_def digits.simps [of 0] digits.simps [of "Suc 0"]
      digits.simps [of 2] digits.simps [of 7] char_of_eq_iff)


section \<open>The classifier\<close>

lemma py_in_iff: "py_in k t \<longleftrightarrow> (\<exists>p s. t = p @ k @ s)"
proof (induction t)
  case Nil
  show ?case by auto
next
  case (Cons c cs)
  have here: "take (length k) (c # cs) = k \<longleftrightarrow> (\<exists>s. c # cs = k @ s)"
    by (metis append_eq_conv_conj)
  have "(\<exists>p s. c # cs = p @ k @ s) \<longleftrightarrow> (\<exists>s. c # cs = k @ s) \<or> (\<exists>p s. cs = p @ k @ s)"
  proof
    assume "\<exists>p s. c # cs = p @ k @ s"
    then obtain p s where d: "c # cs = p @ k @ s" by blast
    show "(\<exists>s. c # cs = k @ s) \<or> (\<exists>p s. cs = p @ k @ s)"
    proof (cases p)
      case Nil
      with d show ?thesis by auto
    next
      case (Cons a p')
      with d have "cs = p' @ k @ s" by simp
      then show ?thesis by blast
    qed
  next
    assume "(\<exists>s. c # cs = k @ s) \<or> (\<exists>p s. cs = p @ k @ s)"
    then show "\<exists>p s. c # cs = p @ k @ s"
    proof
      assume "\<exists>s. c # cs = k @ s"
      then obtain s where "c # cs = [] @ k @ s" by auto
      then show ?thesis by blast
    next
      assume "\<exists>p s. cs = p @ k @ s"
      then obtain p s where "c # cs = (c # p) @ k @ s" by auto
      then show ?thesis by blast
    qed
  qed
  with here show ?case
    using Cons.IH by simp
qed

text \<open>
  Claim C5. \<open>is_analyst_role\<close> accepts a title exactly when the normalized title
  contains one of the include keywords as a contiguous piece and contains none of the
  exclude keywords. "Senior Data Scientist" is rejected although it contains the include
  keyword "data scientist", because it contains the exclude keyword "senior ";
  "Data Analyst" is accepted; "Software Engineer" is rejected because it contains no
  include keyword.
\<close>

theorem is_analyst_role_iff:
  "(is_analyst_role t \<longleftrightarrow>
      (\<exists>k \<in> set INCLUDE_TITLE_KEYWORDS. \<exists>p s. norm (Some t) = p @ k @ s)
      \<and> \<not> (\<exists>k \<in> set EXCLUDE_TITLE_KEYWORDS. \<exists>p s. norm (Some t) = p @ k @ s))
   \<and> \<not> is_analyst_role ''Senior Data Scientist''
   \<and> py_in ''data scientist'' (norm (Some ''Senior Data Scientist''))
   \<and> py_in ''senior '' (norm (Some ''Senior Data Scientist''))
   \<and> is_analyst_role ''Data Analyst''
   \<and> \<not> is_analyst_role ''Software Engineer''
   \<and> \<not> list_ex (\<lambda>k. py_in k (norm (Some ''Software Engineer''))) INCLUDE_TITLE_KEYWORDS"
proof -
  have "is_analyst_role t \<longleftrightarrow>
      (\<exists>k \<in> set INCLUDE_TITLE_KEYWORDS. \<exists>p s. norm (Some t) = p @ k @ s)
      \<and> \<not> (\<exists>k \<in> set EXCLUDE_TITLE_KEYWORDS. \<exists>p s. norm (Some t) = p @ k @ s)"
    by (simp add: is_analyst_role_def Let_def list_ex_iff py_in_iff)
  moreover have "\<not> is_analyst_role ''Senior Data Scientist''"
    by (rule example_roles)
  moreover have "py_in ''data scientist'' (norm (Some ''Senior Data Scientist''))"
    by (simp add: text_eval)
  moreover have "py_in ''senior '' (norm (Some ''Senior Data Scientist''))"
    by (simp add: text_eval)
  moreover have "is_analyst_role ''Data Analyst''"
    by (rule example_roles)
  moreover have "\<not> is_analyst_role ''Software Engineer''"
    by (rule example_roles)
  moreover have
    "\<not> list_ex (\<lambda>k. py_in k (norm (Some ''Software Engineer''))) INCLUDE_TITLE_KEYWORDS"
    by (simp add: INCLUDE_TITLE_KEYWORDS_def text_eval)
  ultimately show ?thesis
    by blast
qed


section \<open>The Seen-Set store\<close>

lemma sorted_list_of_fset_sorted:
  "sorted (sorted_list_of_fset S) \<and> distinct (sorted_list_of_fset S)"
  by (simp add: sorted_list_of_fset.rep_eq)

lemma load_seen_Array: "load_seen (Json (Array data)) = Inr (fset_of_list (map py_str data))"
  by (simp add: load_seen_def path_exists_def)

lemma load_seen_empty_cases:
  "load_seen Absent = Inr {||}" "load_seen Invalid = Inr {||}"
  "load_seen (Json Not_array) = Inr {||}"
  by (simp_all add: load_seen_def path_exists_def)

lemma fset_of_list_empty_iff: "fset_of_list xs = {||} \<longleftrightarrow> xs = []"
  by (cases xs) auto

lemma load_seen_total: "\<exists>S. load_seen f = Inr S"
proof (cases f)
  case (Json d)
  then show ?thesis
    by (cases d) (simp_all add: load_seen_Array load_seen_empty_cases)
qed (simp_all add: load_seen_empty_cases)

text \<open>
  Claim C6. For every finite set \<open>S\<close> of strings, the empty one included, loading after
  \<open>save_seen S\<close> gives \<open>S\<close> back. What is written is a list of strings that is sorted,
  has no duplicates and has the elements of \<open>S\<close>, and it does not depend on what the
  resource held before.
\<close>

theorem save_then_load:
  "load_seen (save_seen S f) = Inr S
   \<and> (\<exists>xs. save_seen S f = Json (Array (map PStr xs))
            \<and> sorted xs \<and> distinct xs \<and> set xs = fset S)
   \<and> save_seen S f = save_seen S g
   \<and> save_seen {||} f = Json (Array [])
   \<and> load_seen (save_seen {||} f) = Inr {||}"
proof -
  have round: "load_seen (save_seen T f) = Inr T" for T
    by (simp add: save_seen_def load_seen_Array comp_def)
  have "save_seen S f = Json (Array (map PStr (sorted_list_of_fset S)))
        \<and> sorted (sorted_list_of_fset S) \<and> distinct (sorted_list_of_fset S)
        \<and> set (sorted_list_of_fset S) = fset S"
    using sorted_list_of_fset_sorted [of S] by (simp add: save_seen_def)
  then have "\<exists>xs. save_seen S f = Json (Array (map PStr xs))
                  \<and> sorted xs \<and> distinct xs \<and> set xs = fset S"
    by blast
  moreover have "save_seen S f = save_seen S g"
    by (simp add: save_seen_def)
  moreover have "sorted_list_of_fset ({||} :: string fset) = []"
    by (simp add: sorted_list_of_fset.rep_eq)
  then have "save_seen {||} f = Json (Array [])"
    by (simp add: save_seen_def)
  ultimately show ?thesis
    using round [of S] round [of "{||}"] by simp
qed

text \<open>
  Claim C7, as the code has it. \<open>load_seen\<close> never raises: it returns a set for every
  state of the resource. The set is empty when the file is absent, when its contents do
  not parse, and when they parse to a value that is not a list. When they parse to a
  list, the set holds the string form of every element, whether the elements are
  strings or not.
\<close>

theorem load_seen_never_raises:
  "(\<exists>S. load_seen f = Inr S)
   \<and> load_seen Absent = Inr {||}
   \<and> load_seen Invalid = Inr {||}
   \<and> load_seen (Json Not_array) = Inr {||}
   \<and> load_seen (Json (Array data)) = Inr (fset_of_list (map py_str data))"
  using load_seen_total [of f] by (simp add: load_seen_empty_cases load_seen_Array)

text \<open>
  Claim C7, as the specification states it, fails: a file holding \<open>[1, 2]\<close> parses to
  contents that are not a list of strings, and \<open>load_seen\<close> does not return the empty
  set for it.
\<close>

theorem load_seen_non_string_list_not_empty:
  "\<not> expected_structure (Array [PInt 1, PInt 2])
   \<and> load_seen (Json (Array [PInt 1, PInt 2])) \<noteq> Inr {||}"
proof -
  have "\<not> expected_structure (Array [PInt 1, PInt 2])"
    by (simp add: expected_structure_def)
  moreover have "load_seen (Json (Array [PInt 1, PInt 2])) \<noteq> Inr {||}"
    by (simp add: load_seen_Array)
  ultimately show ?thesis
    by simp
qed

text \<open>
  Claim C10. A parsed list is never treated as corrupt: \<open>load_seen\<close> returns the set of
  the string forms of its elements, so a stored \<open>[1, 2]\<close> loads as \<open>{"1", "2"}\<close>. The
  empty set comes out only for an absent file, contents that do not parse, a parsed
  value that is not a list, and the list with no elements.
\<close>

theorem load_seen_coerces_elements:
  "load_seen (Json (Array data)) = Inr (fset_of_list (map py_str data))
   \<and> load_seen (Json (Array [PInt 1, PInt 2])) = Inr {|''1'', ''2''|}
   \<and> \<not> expected_structure (Array [PInt 1, PInt 2])
   \<and> (load_seen f = Inr {||} \<longleftrightarrow>
        f = Absent \<or> f = Invalid \<or> f = Json Not_array \<or> f = Json (Array []))"
proof -
  have "load_seen (Json (Array [PInt 1, PInt 2])) = Inr {|''1'', ''2''|}"
    by (simp add: load_seen_Array str_int_digit)
  moreover have "\<not> expected_structure (Array [PInt 1, PInt 2])"
    by (simp add: expected_structure_def)
  moreover have "load_seen f = Inr {||} \<longleftrightarrow>
        f = Absent \<or> f = Invalid \<or> f = Json Not_array \<or> f = Json (Array [])"
  proof (cases f)
    case (Json d)
    then show ?thesis
      by (cases d) (simp_all add: load_seen_Array load_seen_empty_cases fset_of_list_empty_iff)
  qed (simp_all add: load_seen_empty_cases)
  ultimately show ?thesis
    by (simp add: load_seen_Array)
qed

section \<open>The identity key\<close>

lemma norm_ignores_case: "lower a = lower b \<Longrightarrow> norm (Some a) = norm (Some b)"
proof -
  assume "lower a = lower b"
  then have "sub_ws (strip (lower a)) = sub_ws (strip (lower b))"
    by simp
  then show ?thesis
    by (simp add: norm_def strip_lower sub_ws_lower)
qed

lemma dropWhile_padding: "list_all P l \<Longrightarrow> dropWhile P (l @ s) = dropWhile P s"
  by (induction l) simp_all

lemma strip_right_padding:
  assumes "list_all isspace r"
  shows "strip (s @ r) = strip s"
proof (cases "list_all isspace s")
  case True
  with assms have "dropWhile isspace (s @ r) = []" and "dropWhile isspace s = []"
    by (auto simp: list_all_iff)
  then show ?thesis
    by (simp only: strip_def)
next
  case False
  then obtain x where "x \<in> set s" and "\<not> isspace x"
    by (auto simp: list_all_iff)
  then have "dropWhile isspace (s @ r) = dropWhile isspace s @ r"
    by (rule dropWhile_append1)
  moreover from assms have "list_all isspace (rev r)"
    by (simp add: list_all_iff)
  then have "dropWhile isspace (rev r @ rev (dropWhile isspace s))
             = dropWhile isspace (rev (dropWhile isspace s))"
    by (rule dropWhile_padding)
  ultimately show ?thesis
    by (simp add: strip_def)
qed

lemma norm_ignores_padding:
  assumes "list_all isspace l" and "list_all isspace r"
  shows "norm (Some (l @ s @ r)) = norm (Some s)"
proof -
  have "strip (l @ s @ r) = strip (s @ r)"
    using assms(1) by (simp add: strip_def dropWhile_padding)
  with assms(2) show ?thesis
    by (simp add: norm_def strip_right_padding)
qed

text \<open>
  Normalization keeps exactly the words of a text, lowered and joined by single blanks:
  two texts are equal after normalization if and only if they have the same lowered
  words.
\<close>

lemma strip_rstrip: "strip s = rstrip (dropWhile isspace s)"
  by (simp add: strip_def rstrip_def)

lemma rstrip_spaces: "list_all isspace u \<Longrightarrow> rstrip u = []"
  by (simp add: rstrip_def list_all_iff)

lemma rstrip_append:
  assumes "\<not> list_all isspace u"
  shows "rstrip (w @ u) = w @ rstrip u"
proof -
  from assms obtain x where "x \<in> set (rev u)" and "\<not> isspace x"
    by (auto simp: list_all_iff)
  then have "dropWhile isspace (rev u @ rev w) = dropWhile isspace (rev u) @ rev w"
    by (rule dropWhile_append1)
  then show ?thesis
    by (simp add: rstrip_def)
qed

lemma rstrip_word:
  assumes "w \<noteq> []" and "list_all (\<lambda>x. \<not> isspace x) w"
  shows "rstrip w = w"
proof -
  from assms have "rev w \<noteq> []" and "\<not> isspace (hd (rev w))"
    by (simp_all add: hd_rev list_all_iff)
  then have "dropWhile isspace (rev w) = rev w"
    by (cases "rev w") simp_all
  then show ?thesis
    by (simp add: rstrip_def)
qed

lemma rstrip_word_append:
  assumes "w \<noteq> []" and "list_all (\<lambda>x. \<not> isspace x) w"
  shows "rstrip (w @ u) = w @ rstrip u"
proof (cases "list_all isspace u")
  case True
  then have "dropWhile isspace (rev u @ rev w) = dropWhile isspace (rev w)"
    by (intro dropWhile_append2) (simp add: list_all_iff)
  then have "rstrip (w @ u) = rstrip w"
    by (simp add: rstrip_def)
  with assms True show ?thesis
    by (simp add: rstrip_word rstrip_spaces)
next
  case False
  then show ?thesis by (rule rstrip_append)
qed

lemma sub_ws_word: "list_all (\<lambda>x. \<not> isspace x) w \<Longrightarrow> sub_ws (w @ x) = w @ sub_ws x"
  by (induction w) simp_all

lemma rstrip_Cons:
  assumes "\<not> list_all isspace (c # cs)"
  shows "rstrip (c # cs) = c # rstrip cs"
proof (cases "list_all isspace cs")
  case True
  with assms have "\<not> isspace c"
    by simp
  moreover from True have "dropWhile isspace (rev cs @ [c]) = dropWhile isspace [c]"
    by (intro dropWhile_append2) (simp add: list_all_iff)
  ultimately show ?thesis
    using True by (simp add: rstrip_def list_all_iff del: dropWhile_append3)
next
  case False
  then show ?thesis
    using rstrip_append [of cs "[c]"] by simp
qed

lemma dropWhile_rstrip: "dropWhile isspace (rstrip x) = rstrip (dropWhile isspace x)"
proof (induction x)
  case Nil
  show ?case by (simp add: rstrip_def)
next
  case (Cons c cs)
  show ?case
  proof (cases "list_all isspace (c # cs)")
    case True
    then have a: "rstrip (c # cs) = []"
      by (rule rstrip_spaces)
    from True have b: "dropWhile isspace (c # cs) = []"
      by (simp add: list_all_iff)
    show ?thesis
      unfolding a b by (simp add: rstrip_def)
  next
    case False
    then have r: "rstrip (c # cs) = c # rstrip cs"
      by (rule rstrip_Cons)
    show ?thesis
    proof (cases "isspace c")
      case True
      with r Cons show ?thesis by simp
    next
      case False
      with r show ?thesis by simp
    qed
  qed
qed

lemma words_of_Nil: "words_of s = [] \<longleftrightarrow> list_all isspace s"
proof (cases "dropWhile isspace s")
  case Nil
  then have "words_of s = []"
    by (subst words_of.simps) (simp only: list.case)
  moreover from Nil have "list_all isspace s"
    by (simp add: list_all_iff)
  ultimately show ?thesis
    by simp
next
  case (Cons c cs)
  then have "words_of s \<noteq> []"
    by (subst words_of.simps) (simp only: list.case list.distinct not_False_eq_True)
  moreover have "\<not> list_all isspace s"
  proof
    assume "list_all isspace s"
    then have "dropWhile isspace s = []"
      by (simp add: list_all_iff)
    with Cons show False
      by simp
  qed
  ultimately show ?thesis
    by simp
qed

lemma sub_ws_strip_words: "sub_ws (strip s) = join_blank (words_of s)"
proof (induction s rule: words_of.induct)
  case (1 s)
  show ?case
  proof (cases "dropWhile isspace s")
    case Nil
    then have "words_of s = []"
      by (subst words_of.simps) (simp only: list.case)
    moreover from Nil have "strip s = []"
      by (simp only: strip_def rev.simps dropWhile.simps)
    ultimately show ?thesis
      by simp
  next
    case (Cons c cs)
    define w where "w = takeWhile (\<lambda>x. \<not> isspace x) (c # cs)"
    define u where "u = dropWhile (\<lambda>x. \<not> isspace x) (c # cs)"
    have nsp: "\<not> isspace c"
      using Cons hd_dropWhile [of isspace s] by auto
    then have w: "w \<noteq> []" "list_all (\<lambda>x. \<not> isspace x) w"
      by (auto simp: w_def list_all_iff dest: set_takeWhileD)
    have split: "c # cs = w @ u"
      by (simp add: w_def u_def)
    have words: "words_of s = w # words_of u"
      by (subst words_of.simps) (simp add: Cons w_def u_def)
    have IH: "sub_ws (strip u) = join_blank (words_of u)"
      using 1 [OF Cons] by (simp add: u_def)
    have strip: "strip s = w @ rstrip u"
      using w by (simp add: strip_rstrip Cons split rstrip_word_append)
    show ?thesis
    proof (cases "list_all isspace u")
      case True
      then have "words_of u = []"
        by (simp add: words_of_Nil)
      with True w show ?thesis
        using sub_ws_word [of w "[]"] by (simp add: strip words rstrip_spaces)
    next
      case False
      then have "words_of u \<noteq> []"
        by (simp add: words_of_Nil)
      then obtain v vs where vs: "words_of u = v # vs"
        by (cases "words_of u") auto
      from False have "u \<noteq> []"
        by auto
      then have "isspace (hd u)"
        using hd_dropWhile [of "\<lambda>x. \<not> isspace x" "c # cs"] by (auto simp: u_def)
      with \<open>u \<noteq> []\<close> obtain d ds where u: "u = d # ds" and d: "isspace d"
        by (cases u) auto
      have "rstrip u = d # rstrip ds"
        using False unfolding u by (rule rstrip_Cons)
      then have "sub_ws (rstrip u) = CHR '' '' # sub_ws (dropWhile isspace (rstrip ds))"
        using d by simp
      also have "dropWhile isspace (rstrip ds) = strip u"
        using d by (simp add: dropWhile_rstrip strip_rstrip u)
      finally have "sub_ws (rstrip u) = CHR '' '' # join_blank (words_of u)"
        by (simp add: IH)
      with w show ?thesis
        by (simp add: strip words sub_ws_word vs)
    qed
  qed
qed

lemma lower_join_blank: "lower (join_blank ws) = join_blank (map lower ws)"
  by (induction ws rule: join_blank.induct) (simp_all add: lower_def lower_char_def)

lemma norm_words: "norm (Some s) = join_blank (map lower (words_of s))"
  by (simp add: norm_def sub_ws_strip_words lower_join_blank)

lemma same_words_same_norm:
  "map lower (words_of x) = map lower (words_of y) \<Longrightarrow> norm (Some x) = norm (Some y)"
  by (simp add: norm_words)


lemma words_of_space: "isspace c \<Longrightarrow> words_of (c # s) = words_of s"
  by (subst words_of.simps, subst (2) words_of.simps) simp

lemma words_of_word:
  assumes "w \<noteq> []" and "list_all (\<lambda>x. \<not> isspace x) w"
    and "u = [] \<or> isspace (hd u)"
  shows "words_of (w @ u) = w # words_of u"
proof -
  from assms(1,2) obtain c cs where w: "w = c # cs" and c: "\<not> isspace c"
    by (cases w) auto
  from assms(2) have all: "\<And>x. x \<in> set w \<Longrightarrow> \<not> isspace x"
    by (simp add: list_all_iff)
  from assms(3) have u: "takeWhile (\<lambda>x. \<not> isspace x) u = []"
    "dropWhile (\<lambda>x. \<not> isspace x) u = u"
    by (cases u; simp)+
  have "dropWhile isspace (w @ u) = c # (cs @ u)"
    using w c by simp
  then have "words_of (w @ u)
      = takeWhile (\<lambda>x. \<not> isspace x) (w @ u)
          # words_of (dropWhile (\<lambda>x. \<not> isspace x) (w @ u))"
    by (subst words_of.simps) (simp add: w)
  also have "takeWhile (\<lambda>x. \<not> isspace x) (w @ u) = w"
    using all by (simp add: takeWhile_append2 u)
  also have "dropWhile (\<lambda>x. \<not> isspace x) (w @ u) = u"
    using all by (simp add: dropWhile_append2 u)
  finally show ?thesis .
qed

lemma words_of_join_blank: "list_all word ws \<Longrightarrow> words_of (join_blank ws) = ws"
proof (induction ws rule: join_blank.induct)
  case 1
  show ?case
    by (subst words_of.simps) simp
next
  case (2 w)
  then have "words_of (w @ []) = w # words_of []"
    by (intro words_of_word) (simp_all add: word_def)
  moreover have "words_of [] = []"
    by (subst words_of.simps) simp
  ultimately show ?case
    by simp
next
  case (3 w v ws)
  then have "words_of (w @ CHR '' '' # join_blank (v # ws))
             = w # words_of (CHR '' '' # join_blank (v # ws))"
    by (intro words_of_word) (simp_all add: word_def isspace_def)
  also have "words_of (CHR '' '' # join_blank (v # ws)) = words_of (join_blank (v # ws))"
    by (rule words_of_space) (simp add: isspace_def)
  finally show ?case
    using 3 by simp
qed

lemma words_of_words: "list_all word (words_of s)"
proof (induction s rule: words_of.induct)
  case (1 s)
  show ?case
  proof (cases "dropWhile isspace s")
    case Nil
    then have "words_of s = []"
      by (subst words_of.simps) (simp only: list.case)
    then show ?thesis
      by simp
  next
    case (Cons c cs)
    have "\<not> isspace c"
      using Cons hd_dropWhile [of isspace s] by auto
    then have "word (takeWhile (\<lambda>x. \<not> isspace x) (c # cs))"
      by (auto simp: word_def list_all_iff dest: set_takeWhileD)
    moreover have "words_of s = takeWhile (\<lambda>x. \<not> isspace x) (c # cs)
                     # words_of (dropWhile (\<lambda>x. \<not> isspace x) (c # cs))"
      by (subst words_of.simps) (simp add: Cons)
    ultimately show ?thesis
      using 1 [OF Cons] by simp
  qed
qed

lemma word_lower: "word w \<Longrightarrow> word (lower w)"
  by (simp add: word_def lower_def list_all_iff isspace_lower_char)

lemma words_of_norm: "words_of (norm (Some s)) = map lower (words_of s)"
proof -
  have "list_all word (map lower (words_of s))"
    using words_of_words [of s] by (simp add: list_all_iff word_lower)
  then show ?thesis
    by (simp add: norm_words words_of_join_blank)
qed

lemma norm_eq_iff_words:
  "norm (Some x) = norm (Some y) \<longleftrightarrow> map lower (words_of x) = map lower (words_of y)"
proof
  assume "norm (Some x) = norm (Some y)"
  then have "words_of (norm (Some x)) = words_of (norm (Some y))"
    by simp
  then show "map lower (words_of x) = map lower (words_of y)"
    by (simp add: words_of_norm)
next
  assume "map lower (words_of x) = map lower (words_of y)"
  then show "norm (Some x) = norm (Some y)"
    by (simp add: norm_words)
qed

text \<open>
  Claim C8. Two listings whose six compared fields differ only in whitespace and letter
  case, in that each field has the same words in both once the letters are lowered,
  have the same identity key. So have, equivalently, two listings whose six fields are
  equal after normalization. For a listing, \<open>stable_job_id\<close> does produce a key.
\<close>

theorem stable_job_id_normalized_fields:
  "((\<forall>k \<in> set compared_fields.
        map lower (words_of (field_text a k)) = map lower (words_of (field_text b k)))
      \<longrightarrow> stable_job_id (Dict a) = stable_job_id (Dict b))
   \<and> ((\<forall>k \<in> set compared_fields.
        norm (Some (field_text a k)) = norm (Some (field_text b k)))
      \<longrightarrow> stable_job_id (Dict a) = stable_job_id (Dict b))
   \<and> (\<exists>key. stable_job_id (Dict a) = Inr key)"
  by (simp add: compared_fields_def field_text_def norm_eq_iff_words [symmetric])

theorem stable_job_id_normalized_fields_witness:
  "stable_job_id (listing ''  ACME   Corp '' ''Data  ANALYST'' ''HTTPS://x.io/1 '')
     = stable_job_id (listing ''acme corp'' ''data analyst'' ''https://x.io/1'')
   \<and> stable_job_id (listing ''acme corp'' ''data analyst'' ''https://x.io/1'')
     = Inr ''acme corp||data analyst||austin||tx||https://x.io/1||2d''"
proof -
  let ?a = "[(''employer_name'', PStr ''  ACME   Corp ''), (''job_title'', PStr ''Data  ANALYST''),
             (''job_city'', PStr ''Austin''), (''job_state'', PStr ''TX''),
             (''job_apply_link'', PStr ''HTTPS://x.io/1 ''), (''job_posted_at'', PStr ''2d'')]"
  let ?b = "[(''employer_name'', PStr ''acme corp''), (''job_title'', PStr ''data analyst''),
             (''job_city'', PStr ''Austin''), (''job_state'', PStr ''TX''),
             (''job_apply_link'', PStr ''https://x.io/1''), (''job_posted_at'', PStr ''2d'')]"
  have same: "\<forall>k \<in> set compared_fields.
          norm (Some (field_text ?a k)) = norm (Some (field_text ?b k))"
    by (simp add: compared_fields_def field_text_def get_default_def text_eval)
  then have "words": "\<forall>k \<in> set compared_fields.
          map lower (words_of (field_text ?a k)) = map lower (words_of (field_text ?b k))"
    by (simp only: norm_eq_iff_words)
  have key: "stable_job_id (Dict ?b)
             = Inr ''acme corp||data analyst||austin||tx||https://x.io/1||2d''"
    by (simp add: get_default_def text_eval)
  from stable_job_id_normalized_fields [of ?a ?b] same "words" key show ?thesis
    by (simp only: listing_def simp_thms)
qed


section \<open>Properties of the run\<close>

lemma new_jobs_of_items: "new_jobs_of jobs = Inr new_jobs \<Longrightarrow> map snd new_jobs = jobs"
  by (induction jobs arbitrary: new_jobs) (auto split: sum.splits)

lemma new_jobs_of_Dicts: "NotDict \<notin> set jobs \<Longrightarrow> \<exists>new_jobs. new_jobs_of jobs = Inr new_jobs"
proof (induction jobs)
  case Nil
  show ?case by simp
next
  case (Cons j js)
  then obtain rest where "new_jobs_of js = Inr rest"
    by auto
  moreover from Cons.prems obtain d where "j = Dict d"
    by (cases j) auto
  ultimately show ?case
    by (simp add: Let_def)
qed

lemma post_each_stops:
  assumes "\<forall>i < length done. post_embed (hook (posted p + i)) (snd (done ! i)) = Inr ()"
    and "post_embed (hook (posted p + length done)) job = Inl e"
  shows "fst (post_each hook (done @ (jid, job) # rest) p) = Some e
         \<and> calls (snd (post_each hook (done @ (jid, job) # rest) p))
             = calls p @ map snd done @ [job]"
  using assms
proof (induction "done" arbitrary: p)
  case Nil
  then show ?case by simp
next
  case (Cons d ds)
  obtain jid' job' where d: "d = (jid', job')"
    by (cases d)
  let ?p = "p\<lparr>seen := finsert jid' (seen p), posted := posted p + 1,
               calls := calls p @ [job']\<rparr>"
  from Cons.prems(1) have first: "post_embed (hook (posted p)) job' = Inr ()"
    using d by fastforce
  have "\<forall>i < length ds. post_embed (hook (posted ?p + i)) (snd (ds ! i)) = Inr ()"
  proof (intro allI impI)
    fix i
    assume "i < length ds"
    then have "post_embed (hook (posted p + Suc i)) (snd ((d # ds) ! Suc i)) = Inr ()"
      using Cons.prems(1) by (metis Suc_less_eq length_Cons)
    then show "post_embed (hook (posted ?p + i)) (snd (ds ! i)) = Inr ()"
      by simp
  qed
  moreover from Cons.prems(2)
  have "post_embed (hook (posted ?p + length ds)) job = Inl e"
    by simp
  ultimately have
    "fst (post_each hook (ds @ (jid, job) # rest) ?p) = Some e
     \<and> calls (snd (post_each hook (ds @ (jid, job) # rest) ?p))
         = calls ?p @ map snd ds @ [job]"
    by (rule Cons.IH)
  with first d show ?case
    by simp
qed

text \<open>
  Claim C4. When \<open>post_embed\<close> raises for one of the selected listings, the earlier ones
  having been delivered, the run stops there: \<open>post_embed\<close> is called on no later
  listing, \<open>save_seen\<close> is not called, so that the state file is what it was, and the
  process ends on the exception with exit status 1.
\<close>

theorem delivery_failure_aborts:
  assumes "fetch_jobs feed = Inr jobs"
    and "new_jobs_of jobs = Inr new_jobs"
    and "slice_to m new_jobs = done @ (jid, job) # rest"
    and "\<forall>i < length done. post_embed (hook i) (snd (done ! i)) = Inr ()"
    and "post_embed (hook (length done)) job = Inl e"
  shows "attempted (main m hook feed file) = map snd done @ [job]
         \<and> store (main m hook feed file) = file
         \<and> raised (main m hook feed file) = Some e
         \<and> exit_code (main m hook feed file) = 1"
proof -
  obtain S where S: "load_seen file = Inr S"
    using load_seen_total by blast
  let ?p = "\<lparr>seen = S, posted = 0, calls = []\<rparr>"
  from assms(3) have nonempty: "new_jobs \<noteq> []"
    by (auto simp: slice_to_def split: if_splits)
  have "fst (post_each hook (done @ (jid, job) # rest) ?p) = Some e
        \<and> calls (snd (post_each hook (done @ (jid, job) # rest) ?p))
            = calls ?p @ map snd done @ [job]"
    using assms(4,5) by (intro post_each_stops) simp_all
  then obtain p' where
    "post_each hook (slice_to m new_jobs) ?p = (Some e, p')"
    and "calls p' = map snd done @ [job]"
    using assms(3) by (cases "post_each hook (done @ (jid, job) # rest) ?p") simp
  with S assms(1,2) nonempty show ?thesis
    by (simp add: main_def exit_code_def)
qed

theorem delivery_failure_aborts_witness:
  "attempted (main 2 (rejecting_at 0) (Body (Array [analyst_seen, analyst_new])) Absent)
     = [analyst_seen]
   \<and> store (main 2 (rejecting_at 0) (Body (Array [analyst_seen, analyst_new])) Absent)
     = Absent
   \<and> raised (main 2 (rejecting_at 0) (Body (Array [analyst_seen, analyst_new])) Absent)
     = Some HTTPError
   \<and> exit_code (main 2 (rejecting_at 0) (Body (Array [analyst_seen, analyst_new])) Absent)
     = 1
   \<and> attempted
       (main 3 (rejecting_at 1) (Body (Array [analyst_seen, analyst_new, engineer])) Invalid)
     = [analyst_seen, analyst_new]
   \<and> store
       (main 3 (rejecting_at 1) (Body (Array [analyst_seen, analyst_new, engineer])) Invalid)
     = Invalid
   \<and> exit_code
       (main 3 (rejecting_at 1) (Body (Array [analyst_seen, analyst_new, engineer])) Invalid)
     = 1"
proof -
  let ?ka = "''acme||data analyst||austin||tx||https://a.io/1||2d''"
  let ?kb = "''bolt||business analyst||austin||tx||https://b.io/2||2d''"
  let ?kc = "''core||software engineer||austin||tx||https://c.io/3||2d''"
  have f2: "fetch_jobs (Body (Array [analyst_seen, analyst_new]))
            = Inr [analyst_seen, analyst_new]"
    by simp
  have n2: "new_jobs_of [analyst_seen, analyst_new]
            = Inr [(?ka, analyst_seen), (?kb, analyst_new)]"
    by (simp add: key_analyst_seen key_analyst_new)
  have s2: "slice_to 2 [(?ka, analyst_seen), (?kb, analyst_new)]
            = [] @ (?ka, analyst_seen) # [(?kb, analyst_new)]"
    by (simp add: slice_to_def)
  have d2: "\<forall>i < length ([] :: (string \<times> item) list).
              post_embed (rejecting_at 0 i) (snd ([] ! i)) = Inr ()"
    by simp
  have e2: "post_embed (rejecting_at 0 (length ([] :: (string \<times> item) list))) analyst_seen
            = Inl HTTPError"
    by (simp add: analyst_seen_def post_eval)
  have f3: "fetch_jobs (Body (Array [analyst_seen, analyst_new, engineer]))
            = Inr [analyst_seen, analyst_new, engineer]"
    by simp
  have n3: "new_jobs_of [analyst_seen, analyst_new, engineer]
            = Inr [(?ka, analyst_seen), (?kb, analyst_new), (?kc, engineer)]"
    by (simp add: key_analyst_seen key_analyst_new key_engineer)
  have s3: "slice_to 3 [(?ka, analyst_seen), (?kb, analyst_new), (?kc, engineer)]
            = [(?ka, analyst_seen)] @ (?kb, analyst_new) # [(?kc, engineer)]"
    by (simp add: slice_to_def)
  have "post_embed (rejecting_at 1 0) analyst_seen = Inr ()"
    by (simp add: analyst_seen_def post_eval)
  then have d3: "\<forall>i < length [(?ka, analyst_seen)].
              post_embed (rejecting_at 1 i) (snd ([(?ka, analyst_seen)] ! i)) = Inr ()"
    by simp
  have e3: "post_embed (rejecting_at 1 (length [(?ka, analyst_seen)])) analyst_new
            = Inl HTTPError"
    by (simp add: analyst_new_def post_eval)
  from delivery_failure_aborts [OF f2 n2 s2 d2 e2, of Absent]
    delivery_failure_aborts [OF f3 n3 s3 d3 e3, of Invalid]
  show ?thesis
    by simp
qed

text \<open>
  Claim C3, as the code has it. When the feed gives no listing (an empty list, or a body
  that is not a list), the run prints its message and returns: nothing is delivered, the
  exit status is 0, and \<open>save_seen\<close> is not called, so the state file stays as it was.
  When \<open>MAX_POSTS_PER_RUN\<close> is 0 and the feed is a non-empty list of objects, nothing is
  delivered, the exit status is 0, and the set that was loaded is saved.
\<close>

theorem empty_feed_and_zero_maximum:
  "(fetch_jobs feed = Inr [] \<longrightarrow>
      main m hook feed file
        = \<lparr>attempted = [], store = file, raised = None,
           printed = [''No new analyst jobs found.'']\<rparr>
      \<and> exit_code (main m hook feed file) = 0)
   \<and> (fetch_jobs feed = Inr jobs \<and> jobs \<noteq> [] \<and> NotDict \<notin> set jobs
        \<and> load_seen file = Inr S \<longrightarrow>
      main 0 hook feed file
        = \<lparr>attempted = [], store = save_seen S file, raised = None,
           printed = [''Posted 0 new analyst job(s).'']\<rparr>
      \<and> exit_code (main 0 hook feed file) = 0
      \<and> load_seen (store (main 0 hook feed file)) = Inr S)"
proof (intro conjI impI)
  assume empty: "fetch_jobs feed = Inr []"
  obtain S' where "load_seen file = Inr S'"
    using load_seen_total by blast
  with empty show
    "main m hook feed file
       = \<lparr>attempted = [], store = file, raised = None,
          printed = [''No new analyst jobs found.'']\<rparr>"
    by (simp add: main_def)
  then show "exit_code (main m hook feed file) = 0"
    by (simp add: exit_code_def)
next
  assume *: "fetch_jobs feed = Inr jobs \<and> jobs \<noteq> [] \<and> NotDict \<notin> set jobs
             \<and> load_seen file = Inr S"
  then obtain new_jobs where new: "new_jobs_of jobs = Inr new_jobs"
    using new_jobs_of_Dicts by blast
  with * have "new_jobs \<noteq> []"
    using new_jobs_of_items [of jobs new_jobs] by auto
  moreover have "str_int (int 0) = ''0''"
    by (simp add: str_int_digit)
  ultimately show run:
    "main 0 hook feed file
       = \<lparr>attempted = [], store = save_seen S file, raised = None,
          printed = [''Posted 0 new analyst job(s).'']\<rparr>"
    using * new by (simp add: main_def slice_to_def)
  then show "exit_code (main 0 hook feed file) = 0"
    by (simp add: exit_code_def)
  from run show "load_seen (store (main 0 hook feed file)) = Inr S"
    by (simp add: save_seen_def load_seen_Array comp_def)
qed

theorem empty_feed_and_zero_maximum_witness:
  "main 1 accepting (Body (Array [])) (Json (Array [PInt 7]))
     = \<lparr>attempted = [], store = Json (Array [PInt 7]), raised = None,
        printed = [''No new analyst jobs found.'']\<rparr>
   \<and> exit_code (main 1 accepting (Body (Array [])) (Json (Array [PInt 7]))) = 0
   \<and> main 0 accepting (Body (Array [analyst_new])) (Json (Array [PInt 7]))
     = \<lparr>attempted = [], store = Json (Array [PStr ''7'']), raised = None,
        printed = [''Posted 0 new analyst job(s).'']\<rparr>
   \<and> exit_code (main 0 accepting (Body (Array [analyst_new])) (Json (Array [PInt 7]))) = 0"
proof -
  have 1: "fetch_jobs (Body (Array [])) = Inr []"
    by simp
  have 2: "fetch_jobs (Body (Array [analyst_new])) = Inr [analyst_new]
           \<and> [analyst_new] \<noteq> [] \<and> NotDict \<notin> set [analyst_new]
           \<and> load_seen (Json (Array [PInt 7])) = Inr {|''7''|}"
    by (simp add: analyst_new_def listing_def load_seen_Array str_int_digit)
  have 3: "save_seen {|''7''|} (Json (Array [PInt 7])) = Json (Array [PStr ''7''])"
    by (simp add: save_seen_def sorted_list_of_fset.rep_eq)
  from 1 2 3
    empty_feed_and_zero_maximum
      [of "Body (Array [])" 1 accepting "Json (Array [PInt 7])"
          "[analyst_new]" "{|''7''|}"]
    empty_feed_and_zero_maximum
      [of "Body (Array [analyst_new])" 0 accepting "Json (Array [PInt 7])"
          "[analyst_new]" "{|''7''|}"]
  show ?thesis
    by (simp add: exit_code_def)
qed

text \<open>
  Claim C3, as the specification states it, fails for a run that fetches no listing:
  with the state file absent, the loaded set is empty and saving it would create the
  file with an empty list, but the run leaves the file absent.
\<close>

theorem empty_feed_skips_save:
  "fetch_jobs (Body (Array [])) = Inr []
   \<and> load_seen Absent = Inr {||}
   \<and> save_seen {||} Absent = Json (Array [])
   \<and> raised (main 1 accepting (Body (Array [])) Absent) = None
   \<and> store (main 1 accepting (Body (Array [])) Absent) = Absent
   \<and> store (main 1 accepting (Body (Array [])) Absent) \<noteq> save_seen {||} Absent"
proof -
  have "sorted_list_of_fset ({||} :: string fset) = []"
    by (simp add: sorted_list_of_fset.rep_eq)
  then have "save_seen {||} Absent = Json (Array [])"
    by (simp add: save_seen_def)
  moreover have "main 1 accepting (Body (Array [])) Absent
        = \<lparr>attempted = [], store = Absent, raised = None,
           printed = [''No new analyst jobs found.'']\<rparr>"
    by (simp add: main_def load_seen_empty_cases)
  ultimately show ?thesis
    by (simp add: load_seen_empty_cases)
qed

text \<open>
  Claim C1 at a failing input. The state file holds the key of the first listing of the
  feed; the feed has that listing, then an analyst listing never seen, then a listing
  the classifier rejects; at most one post is allowed. The run posts the listing whose
  key is in the loaded set, and the set it saves has only that key: the unseen listing
  is neither delivered nor recorded.
\<close>

theorem seen_listing_delivered_again:
  "load_seen (Json (Array [PStr ''acme||data analyst||austin||tx||https://a.io/1||2d'']))
     = Inr {|''acme||data analyst||austin||tx||https://a.io/1||2d''|}
   \<and> stable_job_id analyst_seen
     = Inr ''acme||data analyst||austin||tx||https://a.io/1||2d''
   \<and> stable_job_id analyst_new
     = Inr ''bolt||business analyst||austin||tx||https://b.io/2||2d''
   \<and> is_analyst_role ''Data Analyst''
   \<and> is_analyst_role ''Business Analyst''
   \<and> \<not> is_analyst_role ''Software Engineer''
   \<and> attempted
       (main 1 accepting (Body (Array [analyst_seen, analyst_new, engineer]))
          (Json (Array [PStr ''acme||data analyst||austin||tx||https://a.io/1||2d''])))
     = [analyst_seen]
   \<and> raised
       (main 1 accepting (Body (Array [analyst_seen, analyst_new, engineer]))
          (Json (Array [PStr ''acme||data analyst||austin||tx||https://a.io/1||2d''])))
     = None
   \<and> load_seen (store
       (main 1 accepting (Body (Array [analyst_seen, analyst_new, engineer]))
          (Json (Array [PStr ''acme||data analyst||austin||tx||https://a.io/1||2d'']))))
     = Inr {|''acme||data analyst||austin||tx||https://a.io/1||2d''|}"
proof -
  let ?ka = "''acme||data analyst||austin||tx||https://a.io/1||2d''"
  let ?file = "Json (Array [PStr ?ka])"
  have loaded: "load_seen ?file = Inr {|?ka|}"
    by (simp add: load_seen_Array)
  have post: "post_embed (accepting 0) analyst_seen = Inr ()"
    by (simp add: analyst_seen_def post_eval)
  have "main 1 accepting (Body (Array [analyst_seen, analyst_new, engineer])) ?file
        = \<lparr>attempted = [analyst_seen], store = save_seen {|?ka|} ?file, raised = None,
           printed = [''Posted 1 new analyst job(s).'']\<rparr>"
    by (simp add: main_def loaded key_analyst_seen key_analyst_new key_engineer
        slice_to_def post str_int_digit)
  moreover have "load_seen (save_seen {|?ka|} ?file) = Inr {|?ka|}"
    by (simp add: save_seen_def load_seen_Array comp_def)
  ultimately show ?thesis
    by (simp add: loaded key_analyst_seen key_analyst_new example_roles)
qed

text \<open>
  Claim C2 at a failing input. The feed has one listing, with the title
  "Software Engineer", which \<open>is_analyst_role\<close> rejects; the state file is absent; at
  most one post is allowed. The run posts the listing and saves its key.
\<close>

theorem rejected_title_delivered:
  "\<not> is_analyst_role ''Software Engineer''
   \<and> engineer = listing ''Core'' ''Software Engineer'' ''https://c.io/3''
   \<and> attempted (main 1 accepting (Body (Array [engineer])) Absent) = [engineer]
   \<and> raised (main 1 accepting (Body (Array [engineer])) Absent) = None
   \<and> load_seen (store (main 1 accepting (Body (Array [engineer])) Absent))
     = Inr {|''core||software engineer||austin||tx||https://c.io/3||2d''|}"
proof -
  let ?kc = "''core||software engineer||austin||tx||https://c.io/3||2d''"
  have post: "post_embed (accepting 0) engineer = Inr ()"
    by (simp add: engineer_def post_eval)
  have "main 1 accepting (Body (Array [engineer])) Absent
        = \<lparr>attempted = [engineer], store = save_seen {|?kc|} Absent, raised = None,
           printed = [''Posted 1 new analyst job(s).'']\<rparr>"
    by (simp add: main_def load_seen_empty_cases key_engineer slice_to_def post
        str_int_digit)
  moreover have "load_seen (save_seen {|?kc|} Absent) = Inr {|?kc|}"
    by (simp add: save_seen_def load_seen_Array comp_def)
  ultimately show ?thesis
    by (simp add: example_roles engineer_def)
qed

end
